theory Spec2Isabelle
  imports Main
begin

section \<open>HelixMind: session memory and the analysis client\<close>

text \<open>
  The repository holds the Next.js front end of HelixMind: the API client
  (\<^verbatim>\<open>lib/api.ts\<close>), the page component with \<^verbatim>\<open>handleAnalyze\<close>, the upload
  component and the memory panel. The FastAPI back end that owns the memory store is
  not part of the sources; where a property is about it, the store is modelled from
  the specification and marked as such.

  JavaScript strings are modelled as \<^typ>\<open>string\<close>, read as UTF-8 bytes: the code
  below only compares, concatenates and cuts strings at ASCII boundaries.
\<close>

section \<open>The model\<close>

subsection \<open>MemoryStore\<close>

text \<open>
  Modelled from the spec: the back end's MemoryStore (section 4.5) is missing from the
  sources. A record carries its session and its creation time; the store is the list of
  the records of all sessions, in insertion order.
\<close>

record MemoryRecord =
  rec_id :: nat
  rec_session :: string
  rec_created_at :: nat
  rec_content :: string

type_synonym MemoryStore = "MemoryRecord list"

definition MAX_MEMORY_ITEMS :: nat where
  "MAX_MEMORY_ITEMS = 100"

definition in_session :: "string \<Rightarrow> MemoryRecord \<Rightarrow> bool" where
  "in_session sid r = (rec_session r = sid)"

definition count_session :: "string \<Rightarrow> MemoryStore \<Rightarrow> nat" where
  "count_session sid st = length (filter (in_session sid) st)"

text \<open>
  Modelled from the spec: the choice of the record to evict, which the missing back end
  makes. It is the oldest record by \<open>created_at\<close>; of two equally old ones, the one
  stored first.
\<close>

fun oldest :: "MemoryRecord \<Rightarrow> MemoryRecord list \<Rightarrow> MemoryRecord" where
  "oldest m [] = m"
| "oldest m (r # rs) = oldest (if rec_created_at r < rec_created_at m then r else m) rs"

definition evict_oldest :: "string \<Rightarrow> MemoryStore \<Rightarrow> MemoryStore" where
  "evict_oldest sid st =
     (case filter (in_session sid) st of
        [] \<Rightarrow> st
      | r # rs \<Rightarrow> remove1 (oldest r rs) st)"

lemma oldest_mem: "oldest m rs \<in> set (m # rs)"
  by (induction rs arbitrary: m) auto

lemma oldest_le: "x \<in> set (m # rs) \<Longrightarrow> rec_created_at (oldest m rs) \<le> rec_created_at x"
proof (induction rs arbitrary: m x)
  case Nil
  then show ?case by simp
next
  case (Cons r rs)
  let ?m' = "if rec_created_at r < rec_created_at m then r else m"
  from Cons.prems consider "x = m" | "x = r" | "x \<in> set rs" by auto
  then show ?case
  proof cases
    case 1
    have "rec_created_at (oldest ?m' rs) \<le> rec_created_at ?m'"
      using Cons.IH [of ?m' ?m'] by simp
    with 1 show ?thesis by (simp split: if_splits)
  next
    case 2
    have "rec_created_at (oldest ?m' rs) \<le> rec_created_at ?m'"
      using Cons.IH [of ?m' ?m'] by simp
    with 2 show ?thesis by (simp split: if_splits)
  next
    case 3
    then show ?thesis using Cons.IH [of x ?m'] by simp
  qed
qed

lemma length_filter_remove1:
  "x \<in> set xs \<Longrightarrow> P x \<Longrightarrow> Suc (length (filter P (remove1 x xs))) = length (filter P xs)"
  by (induction xs) auto

lemma length_filter_remove1_other:
  "\<not> P x \<Longrightarrow> length (filter P (remove1 x xs)) = length (filter P xs)"
  by (induction xs) auto

lemma evict_oldest_count:
  "0 < count_session sid st \<Longrightarrow> Suc (count_session sid (evict_oldest sid st)) = count_session sid st"
proof -
  assume pos: "0 < count_session sid st"
  then obtain r rs where f: "filter (in_session sid) st = r # rs"
    by (cases "filter (in_session sid) st") (auto simp: count_session_def)
  have "oldest r rs \<in> set (filter (in_session sid) st)"
    using oldest_mem [of r rs] f by simp
  then have "oldest r rs \<in> set st" and "in_session sid (oldest r rs)" by auto
  then show ?thesis
    using f by (simp add: evict_oldest_def count_session_def length_filter_remove1)
qed

text \<open>
  Modelled from the spec: the eviction loop of the missing MemoryStore. While the session
  holds more than \<open>m\<close> records, its oldest record is deleted.
\<close>

function evict :: "nat \<Rightarrow> string \<Rightarrow> MemoryStore \<Rightarrow> MemoryStore" where
  "evict m sid st =
     (if m < count_session sid st then evict m sid (evict_oldest sid st) else st)"
  by pat_completeness auto
termination
proof (relation "measure (\<lambda>(m, sid, st). count_session sid st)")
  show "wf (measure (\<lambda>(m, sid, st). count_session sid st))" by simp
next
  fix m sid st
  assume "m < count_session sid st"
  then have "0 < count_session sid st" by simp
  from evict_oldest_count [OF this]
  show "((m, sid, evict_oldest sid st), (m, sid, st)) \<in> measure (\<lambda>(m, sid, st). count_session sid st)"
    by simp
qed

declare evict.simps [simp del]

text \<open>
  Modelled from the spec: \<open>Append\<close> of the missing MemoryStore writes the record and
  then runs the eviction check for the record's session; \<open>appends\<close> is a sequence of
  Appends, and \<open>Clear\<close> purges the records of one session and leaves the others.
\<close>

definition Append :: "nat \<Rightarrow> MemoryRecord \<Rightarrow> MemoryStore \<Rightarrow> MemoryStore" where
  "Append m r st = evict m (rec_session r) (st @ [r])"

definition appends :: "nat \<Rightarrow> MemoryRecord list \<Rightarrow> MemoryStore \<Rightarrow> MemoryStore" where
  "appends m rs st = foldl (\<lambda>s r. Append m r s) st rs"

definition Clear :: "string \<Rightarrow> MemoryStore \<Rightarrow> MemoryStore" where
  "Clear sid st = filter (\<lambda>r. \<not> in_session sid r) st"

definition mk_record :: "nat \<Rightarrow> string \<Rightarrow> nat \<Rightarrow> MemoryRecord" where
  "mk_record i sid t = \<lparr>rec_id = i, rec_session = sid, rec_created_at = t, rec_content = []\<rparr>"

subsection \<open>Strings\<close>

definition startsWith :: "string \<Rightarrow> string \<Rightarrow> bool" where
  "startsWith s p = (take (length p) s = p)"

definition endsWith :: "string \<Rightarrow> string \<Rightarrow> bool" where
  "endsWith s p = (length p \<le> length s \<and> drop (length s - length p) s = p)"

text \<open>\<^verbatim>\<open>s.split('\n')\<close>: the pieces between line feeds; one piece more than line feeds.\<close>

fun split_nl :: "string \<Rightarrow> string list" where
  "split_nl [] = [[]]"
| "split_nl (c # cs) =
     (if c = CHR 0x0A then [] # split_nl cs
      else (case split_nl cs of [] \<Rightarrow> [[c]] | l # ls \<Rightarrow> (c # l) # ls))"

text \<open>
  The white space and line terminators that \<^verbatim>\<open>String.prototype.trim\<close> strips, each as
  its UTF-8 bytes: U+0009 to U+000D, U+0020, U+00A0, U+1680, U+2000 to U+200A, U+2028,
  U+2029, U+202F, U+205F, U+3000 and U+FEFF.
\<close>

definition white_space :: "string list" where
  "white_space =
     [[CHR 0x09], [CHR 0x0A], [CHR 0x0B], [CHR 0x0C], [CHR 0x0D], [CHR 0x20],
      [CHR 0xC2, CHR 0xA0], [CHR 0xE1, CHR 0x9A, CHR 0x80],
      [CHR 0xE2, CHR 0x80, CHR 0x80], [CHR 0xE2, CHR 0x80, CHR 0x81],
      [CHR 0xE2, CHR 0x80, CHR 0x82], [CHR 0xE2, CHR 0x80, CHR 0x83],
      [CHR 0xE2, CHR 0x80, CHR 0x84], [CHR 0xE2, CHR 0x80, CHR 0x85],
      [CHR 0xE2, CHR 0x80, CHR 0x86], [CHR 0xE2, CHR 0x80, CHR 0x87],
      [CHR 0xE2, CHR 0x80, CHR 0x88], [CHR 0xE2, CHR 0x80, CHR 0x89],
      [CHR 0xE2, CHR 0x80, CHR 0x8A], [CHR 0xE2, CHR 0x80, CHR 0xA8],
      [CHR 0xE2, CHR 0x80, CHR 0xA9], [CHR 0xE2, CHR 0x80, CHR 0xAF],
      [CHR 0xE2, CHR 0x81, CHR 0x9F], [CHR 0xE3, CHR 0x80, CHR 0x80],
      [CHR 0xEF, CHR 0xBB, CHR 0xBF]]"

function strip :: "string list \<Rightarrow> string \<Rightarrow> string" where
  "strip ws s =
     (case find (\<lambda>w. w \<noteq> [] \<and> startsWith s w) ws of
        None \<Rightarrow> s
      | Some w \<Rightarrow> strip ws (drop (length w) s))"
  by pat_completeness auto
termination
proof (relation "measure (\<lambda>(ws, s). length s)")
  show "wf (measure (\<lambda>(ws, s). length s))" by simp
next
  fix ws :: "string list" and s w :: string
  assume "find (\<lambda>w. w \<noteq> [] \<and> startsWith s w) ws = Some w"
  then have "w \<noteq> []" and "take (length w) s = w"
    by (auto simp: find_Some_iff startsWith_def)
  then have "s \<noteq> []" by auto
  with \<open>w \<noteq> []\<close> show "((ws, drop (length w) s), (ws, s)) \<in> measure (\<lambda>(ws, s). length s)"
    by simp
qed

declare strip.simps [simp del]

definition trim :: "string \<Rightarrow> string" where
  "trim s = rev (strip (map rev white_space) (rev (strip white_space s)))"

text \<open>\<^verbatim>\<open>toLowerCase\<close> on the ASCII letters; the patterns compared below are ASCII.\<close>

definition lower_char :: "char \<Rightarrow> char" where
  "lower_char c =
     (if 65 \<le> (of_char c :: nat) \<and> (of_char c :: nat) \<le> 90
      then char_of ((of_char c :: nat) + 32) else c)"

definition toLowerCase :: "string \<Rightarrow> string" where
  "toLowerCase s = map lower_char s"

subsection \<open>Values and results\<close>

text \<open>
  What \<^verbatim>\<open>JSON.parse\<close> delivers is untyped (\<^verbatim>\<open>any\<close>); \<open>JUndefined\<close> is the value of
  a property that is absent. Numbers are not inspected by the code.
\<close>

datatype jsval =
    JUndefined
  | JNull
  | JBool bool
  | JNum int
  | JStr string
  | JArr "jsval list"
  | JObj "(string \<times> jsval) list"

record File =
  file_name :: string
  file_type :: string
  file_size :: nat

record ChartData =
  chart_type :: string
  chart_title :: string
  chart_html :: "string option"
  chart_image_base64 :: "string option"
  chart_insights :: "string option"
  chart_data :: "jsval option"

record MemoryItem =
  item_id :: string
  item_content :: jsval
  item_timestamp :: string
  relevance_score :: "int option"

text \<open>
  The body of the buffered response, typed by the interface \<^verbatim>\<open>AnalysisResult\<close>.
  \<open>thinking_trace\<close> and \<open>charts\<close> are optional because the code tests them for
  presence before use.
\<close>

record AnalysisResult =
  session_id :: string
  result :: string
  thinking_trace :: "string list option"
  charts :: "ChartData list option"
  memory_context :: "MemoryItem list"
  timestamp :: string

text \<open>
  The same interface as the streaming client fills it: the fields hold whatever the
  parsed events carried, which TypeScript does not check.
\<close>

record StreamedResult =
  s_session_id :: jsval
  s_result :: string
  s_thinking_trace :: "jsval list"
  s_charts :: "jsval list"
  s_memory_context :: "MemoryItem list"
  s_timestamp :: string

datatype error =
    Timeout
  | NetworkError
  | BadStatus nat
  | AnalysisFailed nat
  | NoResponseBody

datatype form_value = Text string | Blob File

type_synonym form_data = "(string \<times> form_value) list"

text \<open>
  What a call does besides returning, in order: the caller's callback invoked with a step,
  a timer awaited (ms), a request sent (path, body, timeout in ms), the request settled
  after so many ms, a chunk read from the response stream, the stream's end.
  A timer waits at least its delay, so \<open>elapsed\<close> is the least time that the effects
  take, a lower bound of the time a call lasts.
\<close>

datatype 'a effect =
    Callback 'a
  | Wait nat
  | Post string form_data nat
  | Settled nat
  | Fetch string form_data
  | Read string
  | Done



fun callbacks :: "'a effect list \<Rightarrow> 'a list" where
  "callbacks [] = []"
| "callbacks (Callback x # es) = x # callbacks es"
| "callbacks (e # es) = callbacks es"

subsection \<open>analyzeData\<close>

text \<open>
  The options of \<open>analyzeData\<close>. \<open>files\<close> is the empty list when the caller leaves it
  out, \<open>onThinkingStep\<close> tells whether a callback is supplied; what the callback is
  called with is recorded as an effect. \<^verbatim>\<open>thinkingLevel\<close> is never read.
\<close>

record AnalyzeOptions =
  query :: string
  files :: "File list"
  sessionId :: "string option"
  onThinkingStep :: bool

text \<open>
  The back end behind \<^verbatim>\<open>POST /analyze\<close>: how long it takes to answer (ms) and what
  it answers. \<open>axios_post\<close> is the library call with its \<^verbatim>\<open>timeout\<close> option: the
  timer is armed when the request goes out, and a request that has not been answered
  when the timer fires is aborted with a timeout error, also when the answer is due at
  that very moment; zero means no timeout.
\<close>

type_synonym backend = "form_data \<Rightarrow> nat \<times> (error + AnalysisResult)"

definition axios_post :: "backend \<Rightarrow> form_data \<Rightarrow> nat \<Rightarrow> nat \<times> (error + AnalysisResult)" where
  "axios_post backend body timeout =
     (case backend body of
        (t, response) \<Rightarrow>
          if 0 < timeout \<and> timeout \<le> t then (timeout, Inl Timeout) else (t, response))"

definition thinkingSteps :: "string list" where
  "thinkingSteps =
     [[CHR 0xF0, CHR 0x9F, CHR 0x94, CHR 0xAC] @ '' Initializing analysis pipeline...'',
      [CHR 0xF0, CHR 0x9F, CHR 0x93, CHR 0x84] @ '' Processing uploaded documents...'',
      [CHR 0xF0, CHR 0x9F, CHR 0xA7, CHR 0xAC] @ '' Applying AI reasoning...'',
      [CHR 0xF0, CHR 0x9F, CHR 0x93, CHR 0x8A] @ '' Generating visualizations...'']"

definition formData_of :: "AnalyzeOptions \<Rightarrow> form_data" where
  "formData_of options =
     [(''text'', Text (query options))]
     @ (case sessionId options of
          None \<Rightarrow> []
        | Some sid \<Rightarrow> if sid = [] then [] else [(''session_id'', Text sid)])
     @ map (\<lambda>file. (''files'', Blob file)) (files options)"

definition analyzeData ::
  "backend \<Rightarrow> AnalyzeOptions \<Rightarrow> string effect list \<times> (error + AnalysisResult)" where
  "analyzeData backend options =
     (let formData = formData_of options;
          simulated =
            (if onThinkingStep options
             then concat (map (\<lambda>step. [Callback step, Wait 500]) thinkingSteps) else []);
          sent = simulated @ [Post ''/analyze'' formData 120000]
      in case axios_post backend formData 120000 of
           (t, Inl e) \<Rightarrow> (sent @ [Settled t], Inl e)
         | (t, Inr data) \<Rightarrow>
             (sent @ [Settled t]
                @ (if onThinkingStep options
                   then (case thinking_trace data of
                           None \<Rightarrow> [] | Some trace \<Rightarrow> map Callback trace)
                   else []),
              Inr data))"

subsection \<open>handleAnalyze\<close>

datatype panel = PanelMain | PanelMemory | PanelSettings

record HomeState =
  st_sessionId :: "string option"
  st_query :: string
  st_files :: "File list"
  isAnalyzing :: bool
  st_thinkingSteps :: "string list"
  st_result :: "AnalysisResult option"
  st_charts :: "ChartData list"
  activePanel :: panel
  isDockMinimized :: bool
  showDock :: bool

text \<open>The state of the page when it is first rendered.\<close>

definition Home_initial :: HomeState where
  "Home_initial =
     \<lparr>st_sessionId = None, st_query = [], st_files = [], isAnalyzing = False,
      st_thinkingSteps = [], st_result = None, st_charts = [], activePanel = PanelMain,
      isDockMinimized = False, showDock = True\<rparr>"

definition analysis_failed_step :: string where
  "analysis_failed_step = [CHR 0xE2, CHR 0x9D, CHR 0x8C] @ '' Analysis failed. Please try again.''"

text \<open>The callback that \<open>handleAnalyze\<close> passes: it appends the step to the console.\<close>

fun deliver :: "HomeState \<Rightarrow> string effect \<Rightarrow> HomeState" where
  "deliver st (Callback step) = st\<lparr>st_thinkingSteps := st_thinkingSteps st @ [step]\<rparr>"
| "deliver st _ = st"

definition empty_request :: "HomeState \<Rightarrow> bool" where
  "empty_request st = (trim (st_query st) = [] \<and> st_files st = [])"

text \<open>The \<^verbatim>\<open>disabled\<close> attribute of the Analyze button.\<close>

definition analyze_disabled :: "HomeState \<Rightarrow> bool" where
  "analyze_disabled st = (isAnalyzing st \<or> (trim (st_query st) = [] \<and> st_files st = []))"

text \<open>
  The options that \<open>handleAnalyze\<close> passes to \<open>analyzeData\<close>: the query and files
  of the page, the session id unless it is null or empty, and the callback above.
  \<open>handleAnalyze\<close> returns a promise; \<open>Inr\<close> is the promise resolved, with the state of
  the component and what the call did, \<open>Inl\<close> would be the promise rejected.
\<close>

definition options_of :: "HomeState \<Rightarrow> AnalyzeOptions" where
  "options_of st =
     \<lparr>query = st_query st, files = st_files st,
      sessionId = (case st_sessionId st of
                     None \<Rightarrow> None
                   | Some sid \<Rightarrow> if sid = [] then None else Some sid),
      onThinkingStep = True\<rparr>"

definition handleAnalyze ::
  "backend \<Rightarrow> HomeState \<Rightarrow> error + (HomeState \<times> string effect list)" where
  "handleAnalyze backend st =
     (if trim (st_query st) = [] \<and> st_files st = [] then Inr (st, [])
      else
        let st1 = st\<lparr>isAnalyzing := True, st_thinkingSteps := [], st_result := None,
                     st_charts := [], isDockMinimized := False\<rparr>
        in case analyzeData backend (options_of st) of
             (effs, Inr response) \<Rightarrow>
               Inr ((foldl deliver st1 effs)
                      \<lparr>st_sessionId := Some (session_id response),
                       st_result := Some response,
                       st_charts := (case charts response of None \<Rightarrow> [] | Some cs \<Rightarrow> cs),
                       isAnalyzing := False\<rparr>,
                    effs)
           | (effs, Inl e) \<Rightarrow>
               Inr ((foldl deliver st1 effs)
                      \<lparr>st_thinkingSteps :=
                         st_thinkingSteps (foldl deliver st1 effs) @ [analysis_failed_step],
                       isAnalyzing := False\<rparr>,
                    effs))"

subsection \<open>analyzeWithStreaming\<close>

text \<open>
  The response of \<^verbatim>\<open>fetch\<close>: \<open>body\<close> is the text of the chunks that the reader
  delivers until it reports the end, each already decoded; \<open>None\<close> is a response
  without a body. The body is a finite list, so the read loop below is a recursion over
  it; on a stream that never ends the loop of the source would not return, and such a
  stream is not a value of this type.
\<close>

record FetchResponse =
  ok :: bool
  status :: nat
  body :: "string list option"

type_synonym fetcher = "form_data \<Rightarrow> error + FetchResponse"

text \<open>
  Property access \<^verbatim>\<open>data.key\<close> raises a TypeError on \<^verbatim>\<open>null\<close> and
  \<^verbatim>\<open>undefined\<close>. On any other value it gives the member of an object and
  \<^verbatim>\<open>undefined\<close> otherwise: the keys read below (\<^verbatim>\<open>type\<close>, \<^verbatim>\<open>content\<close>,
  \<^verbatim>\<open>session_id\<close>) are not properties of strings, numbers, booleans or arrays.
\<close>

definition nullish :: "jsval \<Rightarrow> bool" where
  "nullish v = (v = JNull \<or> v = JUndefined)"

fun js_member :: "jsval \<Rightarrow> string \<Rightarrow> jsval" where
  "js_member (JObj members) key =
     (case map_of members key of None \<Rightarrow> JUndefined | Some v \<Rightarrow> v)"
| "js_member v key = JUndefined"

text \<open>
  \<^verbatim>\<open>text += v\<close> on a string: a string is appended as it is, any other value as the
  engine's \<^verbatim>\<open>ToString\<close> of it, which is the parameter \<open>toString\<close>.
\<close>

definition text_of :: "(jsval \<Rightarrow> string) \<Rightarrow> jsval \<Rightarrow> string" where
  "text_of toString v = (case v of JStr s \<Rightarrow> s | _ \<Rightarrow> toString v)"

definition js_append :: "(jsval \<Rightarrow> string) \<Rightarrow> string \<Rightarrow> jsval \<Rightarrow> string" where
  "js_append toString text v = text @ text_of toString v"

text \<open>
  The body of the \<^verbatim>\<open>try\<close> block after parsing: the \<^verbatim>\<open>switch\<close> on
  \<^verbatim>\<open>data.type\<close>. The cases compare strictly, so only the four strings match and
  anything else leaves the result as it is. Reading \<^verbatim>\<open>data.type\<close> of \<^verbatim>\<open>null\<close>
  throws, which the \<^verbatim>\<open>catch\<close> swallows.
\<close>

definition dispatch ::
  "(jsval \<Rightarrow> string) \<Rightarrow> jsval \<Rightarrow> jsval effect list \<times> StreamedResult
     \<Rightarrow> jsval effect list \<times> StreamedResult" where
  "dispatch toString data acc =
     (case acc of (effs, r) \<Rightarrow>
        if nullish data then (effs, r)
        else if js_member data ''type'' = JStr ''thinking'' then
          (effs @ [Callback (js_member data ''content'')],
           r\<lparr>s_thinking_trace := s_thinking_trace r @ [js_member data ''content'']\<rparr>)
        else if js_member data ''type'' = JStr ''response'' then
          (effs, r\<lparr>s_result := js_append toString (s_result r) (js_member data ''content'')\<rparr>)
        else if js_member data ''type'' = JStr ''chart'' then
          (effs, r\<lparr>s_charts := s_charts r @ [js_member data ''content'']\<rparr>)
        else if js_member data ''type'' = JStr ''complete'' then
          (effs, r\<lparr>s_session_id := js_member data ''session_id''\<rparr>)
        else (effs, r))"

text \<open>
  One line of a chunk. \<open>JSON_parse\<close> is the engine's parser, \<open>None\<close> where it throws
  a SyntaxError, which the \<^verbatim>\<open>catch\<close> swallows as well.
\<close>

definition process_line ::
  "(string \<Rightarrow> jsval option) \<Rightarrow> (jsval \<Rightarrow> string)
     \<Rightarrow> jsval effect list \<times> StreamedResult \<Rightarrow> string
     \<Rightarrow> jsval effect list \<times> StreamedResult" where
  "process_line JSON_parse toString acc line =
     (if startsWith line ''data: '' then
        (case JSON_parse (drop 6 line) of
           None \<Rightarrow> acc
         | Some data \<Rightarrow> dispatch toString data acc)
      else acc)"

fun read_loop ::
  "(string \<Rightarrow> jsval option) \<Rightarrow> (jsval \<Rightarrow> string) \<Rightarrow> string list
     \<Rightarrow> jsval effect list \<times> StreamedResult \<Rightarrow> jsval effect list \<times> StreamedResult" where
  "read_loop JSON_parse toString [] acc = (fst acc @ [Done], snd acc)"
| "read_loop JSON_parse toString (chunk # rest) acc =
     read_loop JSON_parse toString rest
       (foldl (process_line JSON_parse toString) (fst acc @ [Read chunk], snd acc)
          (split_nl chunk))"

definition initial_result :: "string \<Rightarrow> StreamedResult" where
  "initial_result now =
     \<lparr>s_session_id = JStr [], s_result = [], s_thinking_trace = [], s_charts = [],
      s_memory_context = [], s_timestamp = now\<rparr>"

definition analyzeWithStreaming ::
  "(string \<Rightarrow> jsval option) \<Rightarrow> (jsval \<Rightarrow> string) \<Rightarrow> string \<Rightarrow> fetcher \<Rightarrow> form_data
     \<Rightarrow> jsval effect list \<times> (error + StreamedResult)" where
  "analyzeWithStreaming JSON_parse toString now fetch formData =
     (case fetch formData of
        Inl e \<Rightarrow> ([Fetch ''/analyze/stream'' formData], Inl e)
      | Inr response \<Rightarrow>
          if \<not> ok response then
            ([Fetch ''/analyze/stream'' formData], Inl (AnalysisFailed (status response)))
          else
            (case body response of
               None \<Rightarrow> ([Fetch ''/analyze/stream'' formData], Inl NoResponseBody)
             | Some chunks \<Rightarrow>
                 (case read_loop JSON_parse toString chunks
                         ([Fetch ''/analyze/stream'' formData], initial_result now) of
                    (effs, r) \<Rightarrow> (effs, Inr r))))"

subsection \<open>FileUpload\<close>

text \<open>
  The options that the component passes to \<^verbatim>\<open>useDropzone\<close>: the \<^verbatim>\<open>accept\<close> table
  (a MIME pattern with its file extensions) and \<^verbatim>\<open>maxSize\<close>.
\<close>

definition accept :: "(string \<times> string list) list" where
  "accept =
     [(''application/pdf'', [''.pdf'']),
      (''image/*'', [''.png'', ''.jpg'', ''.jpeg'', ''.gif'', ''.webp'']),
      (''video/*'', [''.mp4'', ''.webm'', ''.mov'']),
      (''text/*'', [''.txt'', ''.csv'', ''.fasta'', ''.pdb''])]"

definition maxSize :: nat where
  "maxSize = 50 * 1024 * 1024"

text \<open>
  The dropzone library is a dependency, not code of the repository. Its test of a file
  is modelled as the library documents it: the table is flattened into one list of MIME
  patterns and extensions; a file matches an entry that starts with a dot when its
  lower-cased name ends with it, an entry \<^verbatim>\<open>type/*\<close> when its MIME type has that
  type before the slash, and any other entry when its MIME type equals it; a file
  larger than \<^verbatim>\<open>maxSize\<close> is rejected. Files that the browser reports as
  \<^verbatim>\<open>application/x-moz-file\<close> pass the type test.
\<close>

definition acceptPropAsAcceptAttr :: "(string \<times> string list) list \<Rightarrow> string list" where
  "acceptPropAsAcceptAttr table = concat (map (\<lambda>(mime, exts). mime # exts) table)"

definition baseMimeType :: "string \<Rightarrow> string" where
  "baseMimeType mimeType = takeWhile (\<lambda>c. c \<noteq> CHR ''/'') mimeType"

definition matches_type :: "File \<Rightarrow> string \<Rightarrow> bool" where
  "matches_type file ty =
     (let validType = toLowerCase (trim ty) in
        if startsWith validType ''.'' then endsWith (toLowerCase (file_name file)) validType
        else if endsWith validType ''/*''
          then baseMimeType (toLowerCase (file_type file)) = baseMimeType validType
        else toLowerCase (file_type file) = validType)"

definition accepts :: "File \<Rightarrow> string list \<Rightarrow> bool" where
  "accepts file acceptedFiles =
     (acceptedFiles = [] \<or> list_ex (matches_type file) acceptedFiles)"

definition fileAccepted :: "File \<Rightarrow> string list \<Rightarrow> bool" where
  "fileAccepted file acceptAttr =
     (file_type file = ''application/x-moz-file'' \<or> accepts file acceptAttr)"

definition fileMatchSize :: "File \<Rightarrow> nat \<Rightarrow> bool" where
  "fileMatchSize file limit = (file_size file \<le> limit)"

text \<open>
  The test that the dropzone applies to a file that reaches it.
\<close>

definition file_passes :: "File \<Rightarrow> bool" where
  "file_passes file =
     (fileAccepted file (acceptPropAsAcceptAttr accept) \<and> fileMatchSize file maxSize)"

text \<open>
  The files do not reach that test as the browser offers them. A dependency of the
  dropzone (file-selector) reads them from the event first: a file to which the browser
  gave no MIME type gets the type that the library's table has for the extension of its
  name, if any, and on a drop (not in the file dialog) the files named
  \<^verbatim>\<open>.DS_Store\<close> and \<^verbatim>\<open>Thumbs.db\<close> are discarded. The table
  \<open>COMMON_MIME_TYPES\<close> is the library's and a parameter here.
\<close>

datatype offer = Dropped | Selected

definition extension :: "string \<Rightarrow> string option" where
  "extension name =
     (if CHR ''.'' \<in> set name
      then Some (toLowerCase (rev (takeWhile (\<lambda>c. c \<noteq> CHR ''.'') (rev name))))
      else None)"

definition withMimeType :: "(string \<Rightarrow> string option) \<Rightarrow> File \<Rightarrow> File" where
  "withMimeType COMMON_MIME_TYPES file =
     (if file_type file = [] then
        (case extension (file_name file) of
           None \<Rightarrow> file
         | Some ext \<Rightarrow>
             (case COMMON_MIME_TYPES ext of
                None \<Rightarrow> file
              | Some ty \<Rightarrow> if ty = [] then file else file\<lparr>file_type := ty\<rparr>))
      else file)"

definition FILES_TO_IGNORE :: "string list" where
  "FILES_TO_IGNORE = [''.DS_Store'', ''Thumbs.db'']"

definition fromEvent :: "(string \<Rightarrow> string option) \<Rightarrow> offer \<Rightarrow> File list \<Rightarrow> File list" where
  "fromEvent COMMON_MIME_TYPES ev offered =
     (case ev of
        Dropped \<Rightarrow>
          filter (\<lambda>file. file_name file \<notin> set FILES_TO_IGNORE)
            (map (withMimeType COMMON_MIME_TYPES) offered)
      | Selected \<Rightarrow> map (withMimeType COMMON_MIME_TYPES) offered)"

text \<open>
  \<open>onDrop\<close> receives the files that passed the test, in the order in which they were
  offered, and hands them to the page. A file is accepted when \<open>onDrop\<close> receives it.
\<close>

definition onDrop :: "(string \<Rightarrow> string option) \<Rightarrow> offer \<Rightarrow> File list \<Rightarrow> File list" where
  "onDrop COMMON_MIME_TYPES ev offered = filter file_passes (fromEvent COMMON_MIME_TYPES ev offered)"

definition accepted :: "(string \<Rightarrow> string option) \<Rightarrow> offer \<Rightarrow> File \<Rightarrow> bool" where
  "accepted COMMON_MIME_TYPES ev file = (onDrop COMMON_MIME_TYPES ev [file] \<noteq> [])"

text \<open>
  The allow-list in the words of the specification: pdf, image/*, video/*, text/plain,
  fasta, pdb. The first four are MIME classes, the last two are the sequence formats,
  which browsers know by their file extension only.
\<close>

definition spec_allow_list :: "File \<Rightarrow> bool" where
  "spec_allow_list file =
     (toLowerCase (file_type file) = ''application/pdf''
      \<or> baseMimeType (toLowerCase (file_type file)) = ''image''
      \<or> baseMimeType (toLowerCase (file_type file)) = ''video''
      \<or> toLowerCase (file_type file) = ''text/plain''
      \<or> endsWith (toLowerCase (file_name file)) ''.fasta''
      \<or> endsWith (toLowerCase (file_name file)) ''.pdb'')"

subsection \<open>MemoryPanel and clearMemory\<close>

record MemoryPanel =
  memories :: "MemoryItem list"
  isLoading :: bool
  panel_error :: "string option"

text \<open>
  \<^verbatim>\<open>DELETE /memory/<session>\<close>: the endpoint acts on the back end's state and
  answers, or fails with an error and leaves the state to the back end.
\<close>

type_synonym 'b delete_endpoint = "string \<Rightarrow> 'b \<Rightarrow> error option \<times> 'b"

definition clearMemory :: "'b delete_endpoint \<Rightarrow> string \<Rightarrow> 'b \<Rightarrow> error option \<times> 'b" where
  "clearMemory axios_delete sid backend_state = axios_delete sid backend_state"

definition clearMemories ::
  "'b delete_endpoint \<Rightarrow> string option \<Rightarrow> MemoryPanel \<times> 'b \<Rightarrow> MemoryPanel \<times> 'b" where
  "clearMemories axios_delete sid acc =
     (case acc of (p, backend_state) \<Rightarrow>
        (case sid of
           None \<Rightarrow> (p, backend_state)
         | Some s \<Rightarrow>
             if s = [] then (p, backend_state)
             else (case axios_delete s backend_state of
                     (None, b') \<Rightarrow> (p\<lparr>memories := []\<rparr>, b')
                   | (Some e, b') \<Rightarrow>
                       (p\<lparr>panel_error := Some ''Failed to clear memories''\<rparr>, b'))))"

text \<open>
  Modelled from the spec: the handler of \<^verbatim>\<open>DELETE /memory/<session>\<close> is missing from
  the sources; by section 4.5 it purges the records of the session and reports no error.
\<close>

definition delete_memory :: "MemoryStore delete_endpoint" where
  "delete_memory sid store = (None, Clear sid store)"

subsection \<open>Vocabulary of the properties\<close>

text \<open>
  What \<open>analyzeData\<close> does before the request when a callback is supplied, and what it
  forwards once the response is there.
\<close>

definition simulated :: "string effect list" where
  "simulated =
     [Callback ([CHR 0xF0, CHR 0x9F, CHR 0x94, CHR 0xAC] @ '' Initializing analysis pipeline...''),
      Wait 500,
      Callback ([CHR 0xF0, CHR 0x9F, CHR 0x93, CHR 0x84] @ '' Processing uploaded documents...''),
      Wait 500,
      Callback ([CHR 0xF0, CHR 0x9F, CHR 0xA7, CHR 0xAC] @ '' Applying AI reasoning...''),
      Wait 500,
      Callback ([CHR 0xF0, CHR 0x9F, CHR 0x93, CHR 0x8A] @ '' Generating visualizations...''),
      Wait 500]"

definition forwarded :: "error + AnalysisResult \<Rightarrow> string effect list" where
  "forwarded response =
     (case response of
        Inl e \<Rightarrow> []
      | Inr data \<Rightarrow> (case thinking_trace data of None \<Rightarrow> [] | Some trace \<Rightarrow> map Callback trace))"

text \<open>
  The events of a stream, as the client consumes them: a line that starts with
  \<^verbatim>\<open>data: \<close> and whose payload parses to a value other than \<^verbatim>\<open>null\<close> is an event;
  a chunk gives the events of its lines, a stream those of its chunks, in order.
\<close>

definition line_events :: "(string \<Rightarrow> jsval option) \<Rightarrow> string \<Rightarrow> jsval list" where
  "line_events JSON_parse line =
     (if startsWith line ''data: '' then
        (case JSON_parse (drop 6 line) of
           None \<Rightarrow> []
         | Some data \<Rightarrow> if nullish data then [] else [data])
      else [])"

definition chunk_events :: "(string \<Rightarrow> jsval option) \<Rightarrow> string \<Rightarrow> jsval list" where
  "chunk_events JSON_parse chunk = concat (map (line_events JSON_parse) (split_nl chunk))"

definition events :: "(string \<Rightarrow> jsval option) \<Rightarrow> string list \<Rightarrow> jsval list" where
  "events JSON_parse chunks = concat (map (chunk_events JSON_parse) chunks)"

definition of_type :: "string \<Rightarrow> jsval list \<Rightarrow> jsval list" where
  "of_type ty evs = filter (\<lambda>data. js_member data ''type'' = JStr ty) evs"

definition contents :: "jsval list \<Rightarrow> jsval list" where
  "contents evs = map (\<lambda>data. js_member data ''content'') evs"

text \<open>
  The result that a list of events amounts to, field by field, on top of a result \<open>r\<close>.
\<close>

definition absorb :: "(jsval \<Rightarrow> string) \<Rightarrow> jsval list \<Rightarrow> StreamedResult \<Rightarrow> StreamedResult" where
  "absorb toString evs r =
     r\<lparr>s_thinking_trace := s_thinking_trace r @ contents (of_type ''thinking'' evs),
       s_result := s_result r @ concat (map (text_of toString) (contents (of_type ''response'' evs))),
       s_charts := s_charts r @ contents (of_type ''chart'' evs),
       s_session_id :=
         (case rev (of_type ''complete'' evs) of
            [] \<Rightarrow> s_session_id r
          | data # earlier \<Rightarrow> js_member data ''session_id'')\<rparr>"





subsection \<open>Sample inputs\<close>

definition demo_result :: AnalysisResult where
  "demo_result =
     \<lparr>session_id = ''s1'', result = ''answer'', thinking_trace = Some [''step 1'', ''step 2''],
      charts = None, memory_context = [], timestamp = ''t''\<rparr>"

definition demo_options :: AnalyzeOptions where
  "demo_options = \<lparr>query = ''q'', files = [], sessionId = None, onThinkingStep = True\<rparr>"

definition demo_state :: HomeState where
  "demo_state = Home_initial\<lparr>st_query := ''  What binds here?  '', st_thinkingSteps := [''old'']\<rparr>"

definition blank_state :: HomeState where
  "blank_state = Home_initial\<lparr>st_query := ''   ''\<rparr>"

text \<open>A sample stream: five events in two chunks, among a comment line, a broken line and
  a \<^verbatim>\<open>null\<close> payload, and a parser that knows just these payloads.\<close>

definition demo_events :: "(string \<times> jsval) list" where
  \<open>demo_events =
     [(''{"type":"thinking","content":"step 1"}'',
         JObj [(''type'', JStr ''thinking''), (''content'', JStr ''step 1'')]),
      (''{"type":"response","content":"Hello "}'',
         JObj [(''type'', JStr ''response''), (''content'', JStr ''Hello '')]),
      (''{"type":"response","content":"world"}'',
         JObj [(''type'', JStr ''response''), (''content'', JStr ''world'')]),
      (''{"type":"chart","content":{"type":"bar"}}'',
         JObj [(''type'', JStr ''chart''), (''content'', JObj [(''type'', JStr ''bar'')])]),
      (''{"type":"complete","session_id":"s1"}'',
         JObj [(''type'', JStr ''complete''), (''session_id'', JStr ''s1'')]),
      (''null'', JNull)]\<close>

definition demo_parse :: "string \<Rightarrow> jsval option" where
  "demo_parse payload = map_of demo_events payload"

definition demo_toString :: "jsval \<Rightarrow> string" where
  "demo_toString v = ''[object Object]''"

definition demo_chunks :: "string list" where
  \<open>demo_chunks =
     [''data: {"type":"thinking","content":"step 1"}'' @ [CHR 0x0A]
        @ ''data: {"type":"response","content":"Hello "}'' @ [CHR 0x0A],
      '': keep-alive'' @ [CHR 0x0A]
        @ ''data: {"type":"resp'' @ [CHR 0x0A]
        @ ''data: null'' @ [CHR 0x0A]
        @ ''data: {"type":"response","content":"world"}'' @ [CHR 0x0A]
        @ ''data: {"type":"chart","content":{"type":"bar"}}'' @ [CHR 0x0A]
        @ ''data: {"type":"complete","session_id":"s1"}'' @ [CHR 0x0A]]\<close>

text \<open>One event in one read, and the same text in two reads that cut the event.\<close>

definition whole_chunks :: "string list" where
  \<open>whole_chunks = [''data: {"type":"response","content":"Hello "}'' @ [CHR 0x0A]]\<close>

definition cut_chunks :: "string list" where
  \<open>cut_chunks = [''data: {"type":"resp'', ''onse","content":"Hello "}'' @ [CHR 0x0A]]\<close>

definition fetch_chunks :: "string list \<Rightarrow> fetcher" where
  "fetch_chunks chunks formData = Inr \<lparr>ok = True, status = 200, body = Some chunks\<rparr>"

definition demo_fetch :: fetcher where
  "demo_fetch formData = Inr \<lparr>ok = True, status = 200, body = Some demo_chunks\<rparr>"

definition csv_file :: File where
  "csv_file = \<lparr>file_name = ''data.csv'', file_type = ''text/csv'', file_size = 1024\<rparr>"

definition pdf_file :: "nat \<Rightarrow> File" where
  "pdf_file n = \<lparr>file_name = ''paper.pdf'', file_type = ''application/pdf'', file_size = n\<rparr>"

definition avi_file :: File where
  "avi_file = \<lparr>file_name = ''movie.AVI'', file_type = [], file_size = 2048\<rparr>"

definition thumbs_file :: File where
  "thumbs_file = \<lparr>file_name = ''Thumbs.db'', file_type = ''image/png'', file_size = 5\<rparr>"

definition demo_mime_types :: "string \<Rightarrow> string option" where
  "demo_mime_types = map_of [(''avi'', ''video/x-msvideo''), (''csv'', ''text/csv'')]"

definition exe_file :: File where
  "exe_file = \<lparr>file_name = ''tool.exe'', file_type = ''application/octet-stream'', file_size = 10\<rparr>"

definition demo_panel :: MemoryPanel where
  "demo_panel =
     \<lparr>memories = [\<lparr>item_id = ''m1'', item_content = JStr ''q1'', item_timestamp = ''t1'',
                    relevance_score = None\<rparr>],
      isLoading = False, panel_error = None\<rparr>"

definition demo_store :: MemoryStore where
  "demo_store = [mk_record 1 ''s'' 10, mk_record 2 ''t'' 20, mk_record 3 ''s'' 30]"

section \<open>Properties\<close>

subsection \<open>Eviction keeps every session within the bound\<close>

lemma evict_count_le: "count_session sid (evict m sid st) \<le> m"
proof (induction m sid st rule: evict.induct)
  case (1 m sid st)
  show ?case
  proof (cases "m < count_session sid st")
    case True
    with 1 show ?thesis by (subst evict.simps) simp
  next
    case False
    then show ?thesis by (subst evict.simps) simp
  qed
qed

lemma evict_count_eq:
  "m \<le> count_session sid st \<Longrightarrow> count_session sid (evict m sid st) = m"
proof (induction m sid st rule: evict.induct)
  case (1 m sid st)
  show ?case
  proof (cases "m < count_session sid st")
    case True
    then have "0 < count_session sid st" by simp
    from evict_oldest_count [OF this] True
    have "m \<le> count_session sid (evict_oldest sid st)" by simp
    with 1 True show ?thesis by (subst evict.simps) simp
  next
    case False
    with 1 show ?thesis by (subst evict.simps) simp
  qed
qed

lemma evict_oldest_other:
  "sid' \<noteq> sid \<Longrightarrow> count_session sid' (evict_oldest sid st) = count_session sid' st"
proof (cases "filter (in_session sid) st")
  case Nil
  then show ?thesis by (simp add: evict_oldest_def)
next
  case (Cons r rs)
  assume ne: "sid' \<noteq> sid"
  have "oldest r rs \<in> set (filter (in_session sid) st)"
    using oldest_mem [of r rs] Cons by simp
  then have "in_session sid (oldest r rs)" by simp
  with ne have "\<not> in_session sid' (oldest r rs)" by (auto simp: in_session_def)
  then show ?thesis
    using Cons by (simp add: evict_oldest_def count_session_def length_filter_remove1_other)
qed

lemma evict_count_other:
  "sid' \<noteq> sid \<Longrightarrow> count_session sid' (evict m sid st) = count_session sid' st"
proof (induction m sid st rule: evict.induct)
  case (1 m sid st)
  show ?case
  proof (cases "m < count_session sid st")
    case True
    with 1 show ?thesis by (subst evict.simps) (simp add: evict_oldest_other)
  next
    case False
    then show ?thesis by (subst evict.simps) simp
  qed
qed

lemma evict_oldest_subset: "set (evict_oldest sid st) \<subseteq> set st"
  using set_remove1_subset by (fastforce simp: evict_oldest_def split: list.splits)

lemma evict_subset: "set (evict m sid st) \<subseteq> set st"
proof (induction m sid st rule: evict.induct)
  case (1 m sid st)
  show ?case
  proof (cases "m < count_session sid st")
    case True
    with 1 evict_oldest_subset [of sid st] show ?thesis by (subst evict.simps) auto
  next
    case False
    then show ?thesis by (subst evict.simps) simp
  qed
qed

lemma evict_oldest_removed:
  assumes "x \<in> set st" and "x \<notin> set (evict_oldest sid st)"
  shows "in_session sid x \<and> (\<forall>y \<in> set st. in_session sid y \<longrightarrow> rec_created_at x \<le> rec_created_at y)"
proof (cases "filter (in_session sid) st")
  case Nil
  with assms show ?thesis by (simp add: evict_oldest_def)
next
  case (Cons r rs)
  with assms have "x \<notin> set (remove1 (oldest r rs) st)" by (simp add: evict_oldest_def)
  with assms(1) have x: "x = oldest r rs"
    by (metis in_set_remove1)
  have mem: "oldest r rs \<in> set (filter (in_session sid) st)"
    using oldest_mem [of r rs] Cons by simp
  have "\<forall>y \<in> set st. in_session sid y \<longrightarrow> rec_created_at x \<le> rec_created_at y"
  proof (intro ballI impI)
    fix y assume "y \<in> set st" "in_session sid y"
    then have "y \<in> set (r # rs)" using Cons [symmetric] by simp
    from oldest_le [OF this] x show "rec_created_at x \<le> rec_created_at y" by simp
  qed
  with mem x show ?thesis by simp
qed

lemma evict_removed:
  "x \<in> set st \<Longrightarrow> x \<notin> set (evict m sid st) \<Longrightarrow>
   in_session sid x \<and>
   (\<forall>y \<in> set (evict m sid st). in_session sid y \<longrightarrow> rec_created_at x \<le> rec_created_at y)"
proof (induction m sid st rule: evict.induct)
  case (1 m sid st)
  show ?case
  proof (cases "m < count_session sid st")
    case True
    then have unf: "evict m sid st = evict m sid (evict_oldest sid st)"
      by (subst evict.simps) simp
    show ?thesis
    proof (cases "x \<in> set (evict_oldest sid st)")
      case True
      with 1 \<open>m < count_session sid st\<close> unf show ?thesis by simp
    next
      case False
      from evict_oldest_removed [OF "1.prems"(1) False]
      have a: "in_session sid x"
        and b: "\<forall>y \<in> set st. in_session sid y \<longrightarrow> rec_created_at x \<le> rec_created_at y"
        by simp_all
      have "set (evict m sid st) \<subseteq> set st" by (rule evict_subset)
      with a b show ?thesis by blast
    qed
  next
    case False
    then have "evict m sid st = st" by (subst evict.simps) simp
    with 1 show ?thesis by simp
  qed
qed

lemma Append_count_le: "count_session sid st \<le> m \<Longrightarrow> count_session sid (Append m r st) \<le> m"
proof (cases "sid = rec_session r")
  case True
  then show ?thesis by (simp add: Append_def evict_count_le)
next
  case False
  assume "count_session sid st \<le> m"
  with False show ?thesis
    by (simp add: Append_def evict_count_other) (simp add: count_session_def in_session_def)
qed

lemma appends_count_le:
  "(\<And>sid. count_session sid st \<le> m) \<Longrightarrow> count_session sid (appends m rs st) \<le> m"
proof (induction rs arbitrary: st sid)
  case Nil
  then show ?case by (simp add: appends_def)
next
  case (Cons r rs)
  have "count_session sid (appends m rs (Append m r st)) \<le> m"
    by (rule Cons.IH) (rule Append_count_le, rule Cons.prems)
  then show ?case by (simp add: appends_def)
qed

text \<open>
  C1. Starting from the empty store, after any sequence of Appends every session holds at
  most \<open>m\<close> records (\<open>m\<close> is MAX_MEMORY_ITEMS, 100 by default). One Append leaves
  the record's session with at most \<open>m\<close> records whatever the store was; when the write
  exceeds the bound the session ends with exactly \<open>m\<close> records, nothing is added but the
  new record, and every evicted record belongs to that session and is at least as old
  (by \<open>created_at\<close>) as every record the session keeps.
\<close>

theorem memory_bounded_by_max_items:
  "count_session sid (appends m rs []) \<le> m
   \<and> count_session sid (appends MAX_MEMORY_ITEMS rs []) \<le> 100
   \<and> count_session (rec_session r) (Append m r st) \<le> m
   \<and> (m \<le> count_session (rec_session r) st \<longrightarrow>
        count_session (rec_session r) (Append m r st) = m)
   \<and> set (Append m r st) \<subseteq> set (st @ [r])
   \<and> (\<forall>x \<in> set (st @ [r]) - set (Append m r st).
        in_session (rec_session r) x
        \<and> (\<forall>y \<in> set (Append m r st).
              in_session (rec_session r) y \<longrightarrow> rec_created_at x \<le> rec_created_at y))"
proof (intro conjI)
  show "count_session sid (appends m rs []) \<le> m"
    by (rule appends_count_le) (simp add: count_session_def)
  have "count_session sid (appends MAX_MEMORY_ITEMS rs []) \<le> MAX_MEMORY_ITEMS"
    by (rule appends_count_le) (simp add: count_session_def)
  then show "count_session sid (appends MAX_MEMORY_ITEMS rs []) \<le> 100"
    by (simp add: MAX_MEMORY_ITEMS_def)
  show "count_session (rec_session r) (Append m r st) \<le> m"
    by (simp add: Append_def evict_count_le)
  show "m \<le> count_session (rec_session r) st \<longrightarrow>
        count_session (rec_session r) (Append m r st) = m"
  proof
    assume "m \<le> count_session (rec_session r) st"
    then have "m \<le> count_session (rec_session r) (st @ [r])"
      by (simp add: count_session_def)
    then show "count_session (rec_session r) (Append m r st) = m"
      by (simp add: Append_def evict_count_eq)
  qed
  show "set (Append m r st) \<subseteq> set (st @ [r])"
    unfolding Append_def by (rule evict_subset)
  show "\<forall>x \<in> set (st @ [r]) - set (Append m r st).
        in_session (rec_session r) x
        \<and> (\<forall>y \<in> set (Append m r st).
              in_session (rec_session r) y \<longrightarrow> rec_created_at x \<le> rec_created_at y)"
  proof
    fix x assume "x \<in> set (st @ [r]) - set (Append m r st)"
    then have "x \<in> set (st @ [r])" and "x \<notin> set (evict m (rec_session r) (st @ [r]))"
      by (simp_all add: Append_def)
    from evict_removed [OF this]
    show "in_session (rec_session r) x
        \<and> (\<forall>y \<in> set (Append m r st).
              in_session (rec_session r) y \<longrightarrow> rec_created_at x \<le> rec_created_at y)"
      by (simp add: Append_def)
  qed
qed

theorem memory_bounded_by_max_items_witness:
  "count_session ''s'' (appends 3 [mk_record 1 ''s'' 10, mk_record 2 ''s'' 20,
        mk_record 3 ''s'' 30, mk_record 4 ''s'' 40] []) \<le> 3
   \<and> 3 \<le> count_session ''s'' [mk_record 1 ''s'' 10, mk_record 2 ''s'' 20, mk_record 3 ''s'' 30]
   \<and> count_session ''s'' (Append 3 (mk_record 4 ''s'' 40)
         [mk_record 1 ''s'' 10, mk_record 2 ''s'' 20, mk_record 3 ''s'' 30]) = 3
   \<and> Append 3 (mk_record 4 ''s'' 40)
         [mk_record 1 ''s'' 10, mk_record 2 ''s'' 20, mk_record 3 ''s'' 30]
       = [mk_record 2 ''s'' 20, mk_record 3 ''s'' 30, mk_record 4 ''s'' 40]
   \<and> mk_record 1 ''s'' 10 \<in> set ([mk_record 1 ''s'' 10, mk_record 2 ''s'' 20, mk_record 3 ''s'' 30]
         @ [mk_record 4 ''s'' 40])
       - set (Append 3 (mk_record 4 ''s'' 40)
         [mk_record 1 ''s'' 10, mk_record 2 ''s'' 20, mk_record 3 ''s'' 30])
   \<and> rec_created_at (mk_record 1 ''s'' 10) \<le> rec_created_at (mk_record 2 ''s'' 20)"
proof -
  let ?st = "[mk_record 1 ''s'' 10, mk_record 2 ''s'' 20, mk_record 3 ''s'' 30]"
  let ?r = "mk_record 4 ''s'' 40"
  have s: "rec_session ?r = ''s''" by (simp add: mk_record_def)
  have c: "3 \<le> count_session ''s'' ?st"
    by (simp add: count_session_def in_session_def mk_record_def)
  have e: "Append 3 ?r ?st = [mk_record 2 ''s'' 20, mk_record 3 ''s'' 30, mk_record 4 ''s'' 40]"
    by (simp add: Append_def evict.simps evict_oldest_def count_session_def in_session_def
        mk_record_def)
  have m: "mk_record 1 ''s'' 10 \<in> set (?st @ [?r]) - set (Append 3 ?r ?st)"
    unfolding e by (simp add: mk_record_def)
  have m2: "mk_record 2 ''s'' 20 \<in> set (Append 3 ?r ?st)"
    unfolding e by simp
  have i2: "in_session (rec_session ?r) (mk_record 2 ''s'' 20)"
    by (simp add: in_session_def mk_record_def)
  note inst = memory_bounded_by_max_items [of "''s''" 3 "?st @ [?r]" ?r ?st]
  from inst have 1: "count_session ''s'' (appends 3 (?st @ [?r]) []) \<le> 3" by blast
  from inst c s have 2: "count_session ''s'' (Append 3 ?r ?st) = 3" by simp
  from inst m m2 i2 have 3: "rec_created_at (mk_record 1 ''s'' 10) \<le> rec_created_at (mk_record 2 ''s'' 20)"
    by blast
  from 1 c 2 e m 3 show ?thesis by simp
qed

subsection \<open>What analyzeData does, in order\<close>

lemma simulated_eq: "concat (map (\<lambda>step. [Callback step, Wait 500]) thinkingSteps) = simulated"
  by (simp add: thinkingSteps_def simulated_def)

lemma analyzeData_with_callback:
  "onThinkingStep options \<Longrightarrow>
   analyzeData backend options =
     (simulated
        @ [Post ''/analyze'' (formData_of options) 120000,
           Settled (fst (axios_post backend (formData_of options) 120000))]
        @ forwarded (snd (axios_post backend (formData_of options) 120000)),
      snd (axios_post backend (formData_of options) 120000))"
  by (cases "axios_post backend (formData_of options) 120000")
     (simp add: analyzeData_def Let_def simulated_eq forwarded_def split: sum.splits)


lemma callbacks_append: "callbacks (xs @ ys) = callbacks xs @ callbacks ys"
  by (induction xs rule: callbacks.induct) simp_all

lemma callbacks_map_Callback: "callbacks (map Callback xs) = xs"
  by (induction xs) simp_all

lemma callbacks_simulated: "callbacks simulated = thinkingSteps"
  by (simp add: simulated_def thinkingSteps_def)





lemma foldl_deliver_rest:
  "foldl deliver st effs = st\<lparr>st_thinkingSteps := st_thinkingSteps st @ callbacks effs\<rparr>"
proof (induction effs arbitrary: st)
  case Nil
  then show ?case by simp
next
  case (Cons e effs)
  then show ?case by (cases e) simp_all
qed

subsection \<open>The placeholder steps of analyzeData\<close>

text \<open>
  C9. When a thinking-step callback is supplied, \<open>analyzeData\<close> first invokes it with
  the four fixed placeholder steps, in this order and each followed by a pause of 500 ms,
  whatever the query, the files and the session are; only then is the request sent, and
  only after the request has settled are the entries of the response's
  \<open>thinking_trace\<close> forwarded, in their order.
\<close>

theorem placeholder_steps_first:
  "onThinkingStep options \<Longrightarrow>
   fst (analyzeData backend options) =
     [Callback ([CHR 0xF0, CHR 0x9F, CHR 0x94, CHR 0xAC] @ '' Initializing analysis pipeline...''),
      Wait 500,
      Callback ([CHR 0xF0, CHR 0x9F, CHR 0x93, CHR 0x84] @ '' Processing uploaded documents...''),
      Wait 500,
      Callback ([CHR 0xF0, CHR 0x9F, CHR 0xA7, CHR 0xAC] @ '' Applying AI reasoning...''),
      Wait 500,
      Callback ([CHR 0xF0, CHR 0x9F, CHR 0x93, CHR 0x8A] @ '' Generating visualizations...''),
      Wait 500,
      Post ''/analyze'' (formData_of options) 120000,
      Settled (fst (axios_post backend (formData_of options) 120000))]
     @ (case snd (analyzeData backend options) of
          Inl e \<Rightarrow> []
        | Inr data \<Rightarrow>
            (case thinking_trace data of None \<Rightarrow> [] | Some trace \<Rightarrow> map Callback trace))"
  by (simp add: analyzeData_with_callback simulated_def forwarded_def)

theorem placeholder_steps_first_witness:
  "onThinkingStep demo_options
   \<and> fst (analyzeData (\<lambda>form. (1000, Inr demo_result)) demo_options) =
     [Callback ([CHR 0xF0, CHR 0x9F, CHR 0x94, CHR 0xAC] @ '' Initializing analysis pipeline...''),
      Wait 500,
      Callback ([CHR 0xF0, CHR 0x9F, CHR 0x93, CHR 0x84] @ '' Processing uploaded documents...''),
      Wait 500,
      Callback ([CHR 0xF0, CHR 0x9F, CHR 0xA7, CHR 0xAC] @ '' Applying AI reasoning...''),
      Wait 500,
      Callback ([CHR 0xF0, CHR 0x9F, CHR 0x93, CHR 0x8A] @ '' Generating visualizations...''),
      Wait 500,
      Post ''/analyze'' [(''text'', Text ''q'')] 120000,
      Settled 1000,
      Callback ''step 1'',
      Callback ''step 2'']"
proof -
  have h: "onThinkingStep demo_options" by (simp add: demo_options_def)
  have o: "snd (analyzeData (\<lambda>form. (1000, Inr demo_result)) demo_options) = Inr demo_result"
    by (simp add: analyzeData_with_callback [OF h] axios_post_def)
  from placeholder_steps_first [OF h, of "\<lambda>form. (1000, Inr demo_result)"] h o
  show ?thesis
    by (simp add: axios_post_def formData_of_def demo_options_def demo_result_def)
qed

subsection \<open>The time limit of the request\<close>






subsection \<open>handleAnalyze: the empty request and the failed request\<close>

lemma trim_demo: "trim ''  What binds here?  '' = ''What binds here?''"
  by (simp add: trim_def strip.simps white_space_def startsWith_def)

lemma trim_blank: "trim ''   '' = []"
  by (simp add: trim_def strip.simps white_space_def startsWith_def)

lemma demo_not_empty: "\<not> empty_request demo_state"
  by (simp add: empty_request_def demo_state_def Home_initial_def trim_demo)

lemma blank_empty: "empty_request blank_state"
  by (simp add: empty_request_def blank_state_def Home_initial_def trim_blank)

text \<open>
  C6. When the call of \<open>analyzeData\<close> fails, \<open>handleAnalyze\<close> still resolves: the
  console shows the steps that the callback received before the failure (the four
  placeholder steps), followed by one closing step that reports the failure; no result
  and no chart is set, and the page is no longer analyzing.
\<close>

theorem failure_keeps_streamed_steps:
  "\<not> empty_request st \<Longrightarrow> snd (analyzeData backend (options_of st)) = Inl e \<Longrightarrow>
   (\<exists>st'. handleAnalyze backend st = Inr (st', fst (analyzeData backend (options_of st)))
      \<and> st_thinkingSteps st'
          = callbacks (fst (analyzeData backend (options_of st))) @ [analysis_failed_step]
      \<and> callbacks (fst (analyzeData backend (options_of st))) = thinkingSteps
      \<and> st_result st' = None \<and> st_charts st' = [] \<and> \<not> isAnalyzing st')"
proof -
  assume ne: "\<not> empty_request st" and fail: "snd (analyzeData backend (options_of st)) = Inl e"
  have cb: "onThinkingStep (options_of st)" by (simp add: options_of_def)
  obtain effs where a: "analyzeData backend (options_of st) = (effs, Inl e)"
    using fail by (cases "analyzeData backend (options_of st)") simp
  from a have fwd: "snd (axios_post backend (formData_of (options_of st)) 120000) = Inl e"
    by (simp add: analyzeData_with_callback [OF cb])
  from a fwd have c: "callbacks effs = thinkingSteps"
    by (auto simp: analyzeData_with_callback [OF cb] callbacks_append callbacks_simulated
        forwarded_def)
  from ne have go: "\<not> (trim (st_query st) = [] \<and> st_files st = [])"
    by (simp add: empty_request_def)
  from a c show ?thesis
    by (simp add: handleAnalyze_def go Let_def foldl_deliver_rest)
qed

theorem failure_keeps_streamed_steps_witness:
  "\<not> empty_request demo_state
   \<and> snd (analyzeData (\<lambda>form. (50, Inl NetworkError)) (options_of demo_state)) = Inl NetworkError
   \<and> (\<exists>st'. handleAnalyze (\<lambda>form. (50, Inl NetworkError)) demo_state
             = Inr (st', fst (analyzeData (\<lambda>form. (50, Inl NetworkError)) (options_of demo_state)))
          \<and> st_thinkingSteps st' = thinkingSteps @ [analysis_failed_step]
          \<and> st_result st' = None \<and> st_charts st' = [] \<and> \<not> isAnalyzing st')"
proof -
  have cb: "onThinkingStep (options_of demo_state)" by (simp add: options_of_def)
  have f: "snd (analyzeData (\<lambda>form. (50, Inl NetworkError)) (options_of demo_state)) = Inl NetworkError"
    by (simp add: analyzeData_with_callback [OF cb] axios_post_def)
  from failure_keeps_streamed_steps [OF demo_not_empty f] demo_not_empty f
  show ?thesis by auto
qed

text \<open>
  C4, as stated, fails. A request whose query is blank and that has no file does not
  fail with an error: \<open>handleAnalyze\<close> returns at once, the promise resolves, the
  state is as before and the console shows no failure.
\<close>

theorem empty_request_counterexample:
  "handleAnalyze (\<lambda>form. (50, Inl NetworkError)) blank_state = Inr (blank_state, [])
   \<and> analysis_failed_step \<notin> set (st_thinkingSteps blank_state)"
  using blank_empty
  by (simp add: handleAnalyze_def empty_request_def) (simp add: blank_state_def Home_initial_def)

text \<open>
  C4, amended. When the query is empty after trimming and no file is attached,
  \<open>handleAnalyze\<close> returns without any effect (the state is unchanged, no request is
  sent, no error is raised) and the Analyze button is disabled. Otherwise validation
  passes: \<open>analyzeData\<close> is called and the request is sent.
\<close>

theorem empty_request_is_skipped:
  "(empty_request st \<longrightarrow> handleAnalyze backend st = Inr (st, []) \<and> analyze_disabled st)
   \<and> (\<not> empty_request st \<longrightarrow>
        (\<exists>st'. handleAnalyze backend st = Inr (st', fst (analyzeData backend (options_of st))))
        \<and> Post ''/analyze'' (formData_of (options_of st)) 120000
             \<in> set (fst (analyzeData backend (options_of st))))"
proof (intro conjI impI)
  assume e: "empty_request st"
  then show "handleAnalyze backend st = Inr (st, [])"
    by (simp add: handleAnalyze_def empty_request_def)
  from e show "analyze_disabled st"
    by (simp add: analyze_disabled_def empty_request_def)
next
  assume ne: "\<not> empty_request st"
  then have go: "\<not> (trim (st_query st) = [] \<and> st_files st = [])"
    by (simp add: empty_request_def)
  show "\<exists>st'. handleAnalyze backend st = Inr (st', fst (analyzeData backend (options_of st)))"
    by (cases "analyzeData backend (options_of st)")
       (simp add: handleAnalyze_def go Let_def split: sum.splits)
  have cb: "onThinkingStep (options_of st)" by (simp add: options_of_def)
  show "Post ''/analyze'' (formData_of (options_of st)) 120000
             \<in> set (fst (analyzeData backend (options_of st)))"
    by (simp add: analyzeData_with_callback [OF cb])
qed

theorem empty_request_is_skipped_witness:
  "empty_request blank_state
   \<and> handleAnalyze (\<lambda>form. (50, Inl NetworkError)) blank_state = Inr (blank_state, [])
   \<and> analyze_disabled blank_state
   \<and> \<not> empty_request demo_state
   \<and> (\<exists>st'. handleAnalyze (\<lambda>form. (50, Inl NetworkError)) demo_state
             = Inr (st', fst (analyzeData (\<lambda>form. (50, Inl NetworkError)) (options_of demo_state))))
   \<and> Post ''/analyze'' [(''text'', Text ''  What binds here?  '')] 120000
        \<in> set (fst (analyzeData (\<lambda>form. (50, Inl NetworkError)) (options_of demo_state)))"
proof -
  have fd: "formData_of (options_of demo_state) = [(''text'', Text ''  What binds here?  '')]"
    by (simp add: formData_of_def options_of_def demo_state_def Home_initial_def)
  from empty_request_is_skipped [of blank_state "\<lambda>form. (50, Inl NetworkError)"]
       empty_request_is_skipped [of demo_state "\<lambda>form. (50, Inl NetworkError)"]
       blank_empty demo_not_empty fd
  show ?thesis by simp
qed

subsection \<open>The streaming client as a fold over events\<close>

lemma absorb_Nil: "absorb toString [] r = r"
  by (simp add: absorb_def of_type_def contents_def)

lemma absorb_append:
  "absorb toString (xs @ ys) r = absorb toString ys (absorb toString xs r)"
  by (simp add: absorb_def of_type_def contents_def split: list.splits)

lemma dispatch_absorb:
  "dispatch toString data (effs, r) =
     (effs @ map Callback (contents (of_type ''thinking'' (if nullish data then [] else [data]))),
      absorb toString (if nullish data then [] else [data]) r)"
  by (simp add: dispatch_def absorb_def of_type_def contents_def js_append_def)

lemma process_line_absorb:
  "process_line JSON_parse toString (effs, r) line =
     (effs @ map Callback (contents (of_type ''thinking'' (line_events JSON_parse line))),
      absorb toString (line_events JSON_parse line) r)"
proof (cases "startsWith line ''data: ''")
  case False
  then show ?thesis
    by (simp add: process_line_def line_events_def absorb_Nil of_type_def contents_def)
next
  case True
  show ?thesis
  proof (cases "JSON_parse (drop 6 line)")
    case None
    with True show ?thesis
      by (simp add: process_line_def line_events_def absorb_Nil of_type_def contents_def)
  next
    case (Some data)
    with True show ?thesis
      by (simp add: process_line_def line_events_def dispatch_absorb)
  qed
qed

lemma of_type_append: "of_type ty (xs @ ys) = of_type ty xs @ of_type ty ys"
  by (simp add: of_type_def)

lemma contents_append: "contents (xs @ ys) = contents xs @ contents ys"
  by (simp add: contents_def)

lemma foldl_process_line:
  "foldl (process_line JSON_parse toString) (effs, r) lines =
     (effs @ map Callback (contents (of_type ''thinking'' (concat (map (line_events JSON_parse) lines)))),
      absorb toString (concat (map (line_events JSON_parse) lines)) r)"
proof (induction lines arbitrary: effs r)
  case Nil
  show ?case by (simp add: absorb_Nil of_type_def contents_def)
next
  case (Cons line lines)
  show ?case
    by (simp add: process_line_absorb Cons.IH of_type_append contents_append absorb_append)
qed

lemma read_loop_absorb:
  "read_loop JSON_parse toString chunks (effs, r) =
     (effs
        @ concat (map (\<lambda>chunk. Read chunk
              # map Callback (contents (of_type ''thinking'' (chunk_events JSON_parse chunk))))
            chunks)
        @ [Done],
      absorb toString (events JSON_parse chunks) r)"
proof (induction chunks arbitrary: effs r)
  case Nil
  show ?case by (simp add: events_def absorb_Nil)
next
  case (Cons chunk chunks)
  show ?case
    by (simp add: foldl_process_line Cons.IH events_def chunk_events_def absorb_append)
qed

lemma callbacks_chunks:
  "callbacks (concat (map (\<lambda>chunk. Read chunk # map Callback (f chunk)) chunks))
     = concat (map f chunks)"
  by (induction chunks) (simp_all add: callbacks_append callbacks_map_Callback)


lemma analyzeWithStreaming_ok:
  assumes "fetch formData = Inr response" and "ok response" and "body response = Some chunks"
  shows "analyzeWithStreaming JSON_parse toString now fetch formData =
     (Fetch ''/analyze/stream'' formData
        # concat (map (\<lambda>chunk. Read chunk
              # map Callback (contents (of_type ''thinking'' (chunk_events JSON_parse chunk))))
            chunks)
        @ [Done],
      Inr (absorb toString (events JSON_parse chunks) (initial_result now)))"
  using assms by (simp add: analyzeWithStreaming_def read_loop_absorb)

lemma thinking_events:
  "concat (map (\<lambda>chunk. contents (of_type ''thinking'' (chunk_events JSON_parse chunk))) chunks)
     = contents (of_type ''thinking'' (events JSON_parse chunks))"
proof (induction chunks)
  case Nil
  show ?case by (simp add: events_def of_type_def contents_def)
next
  case (Cons chunk chunks)
  then show ?case by (simp add: events_def of_type_append contents_append)
qed


lemma demo_run:
  \<open>snd (analyzeWithStreaming demo_parse demo_toString ''now'' demo_fetch [])
     = Inr \<lparr>s_session_id = JStr ''s1'', s_result = ''Hello world'',
            s_thinking_trace = [JStr ''step 1''],
            s_charts = [JObj [(''type'', JStr ''bar'')]],
            s_memory_context = [], s_timestamp = ''now''\<rparr>\<close>
  by code_simp



text \<open>
  What \<open>analyzeWithStreaming\<close> returns is determined by the events that it finds read
  by read, that is by the lines that arrive whole within one read: the contents of their
  \<open>thinking\<close> events are \<open>thinking_trace\<close> and are what the callback received, the
  contents of their \<open>response\<close> events concatenated are the result text, the contents of
  their \<open>chart\<close> events are \<open>charts\<close>, and the last \<open>complete\<close> event gives
  \<open>session_id\<close>.
\<close>

lemma result_reflects_events_of_each_read:
  "fetch formData = Inr response \<Longrightarrow> ok response \<Longrightarrow> body response = Some chunks \<Longrightarrow>
   \<exists>effs r. analyzeWithStreaming JSON_parse toString now fetch formData = (effs, Inr r)
     \<and> s_thinking_trace r = contents (of_type ''thinking'' (events JSON_parse chunks))
     \<and> callbacks effs = contents (of_type ''thinking'' (events JSON_parse chunks))
     \<and> s_result r
         = concat (map (text_of toString) (contents (of_type ''response'' (events JSON_parse chunks))))
     \<and> s_charts r = contents (of_type ''chart'' (events JSON_parse chunks))
     \<and> s_session_id r
         = (case rev (of_type ''complete'' (events JSON_parse chunks)) of
              [] \<Rightarrow> JStr []
            | data # earlier \<Rightarrow> js_member data ''session_id'')
     \<and> s_memory_context r = [] \<and> s_timestamp r = now"
proof -
  assume a: "fetch formData = Inr response" "ok response" "body response = Some chunks"
  show ?thesis
    unfolding analyzeWithStreaming_ok [where fetch = fetch and formData = formData, OF a]
    by (simp add: callbacks_append callbacks_chunks thinking_events)
       (simp add: absorb_def initial_result_def split: list.splits)
qed

text \<open>
  C3. The events of a stream are the lines of its text, however the reads cut it. The
  client splits every read into lines on its own and keeps no unfinished line for the
  next read, so an event that a read cuts in two is lost: its first part does not parse
  and its second part does not start with \<^verbatim>\<open>data: \<close>. The same text gives the result
  \<^verbatim>\<open>Hello \<close> when it arrives in one read, and the empty result when the read ends
  inside the event.
\<close>

theorem cut_event_is_lost:
  \<open>concat cut_chunks = concat whole_chunks
   \<and> events demo_parse [concat cut_chunks]
       = [JObj [(''type'', JStr ''response''), (''content'', JStr ''Hello '')]]
   \<and> snd (analyzeWithStreaming demo_parse demo_toString ''now'' (fetch_chunks whole_chunks) [])
       = Inr ((initial_result ''now'')\<lparr>s_result := ''Hello ''\<rparr>)
   \<and> snd (analyzeWithStreaming demo_parse demo_toString ''now'' (fetch_chunks cut_chunks) [])
       = Inr (initial_result ''now'')
   \<and> callbacks (fst (analyzeWithStreaming demo_parse demo_toString ''now''
         (fetch_chunks cut_chunks) [])) = []\<close>
  by code_simp



subsection \<open>Delivery of the reasoning trace\<close>




subsection \<open>The upload filter\<close>

lemma maxSize_bytes: "maxSize = 52428800"
  by (simp add: maxSize_def)

lemma acceptAttr:
  "acceptPropAsAcceptAttr accept =
     [''application/pdf'', ''.pdf'',
      ''image/*'', ''.png'', ''.jpg'', ''.jpeg'', ''.gif'', ''.webp'',
      ''video/*'', ''.mp4'', ''.webm'', ''.mov'',
      ''text/*'', ''.txt'', ''.csv'', ''.fasta'', ''.pdb'']"
  by (simp add: acceptPropAsAcceptAttr_def accept_def)

lemma valid_types:
  "toLowerCase (trim ''application/pdf'') = ''application/pdf'' \<and>
   toLowerCase (trim ''.pdf'') = ''.pdf'' \<and>
   toLowerCase (trim ''image/*'') = ''image/*'' \<and>
   toLowerCase (trim ''.png'') = ''.png'' \<and>
   toLowerCase (trim ''.jpg'') = ''.jpg'' \<and>
   toLowerCase (trim ''.jpeg'') = ''.jpeg'' \<and>
   toLowerCase (trim ''.gif'') = ''.gif'' \<and>
   toLowerCase (trim ''.webp'') = ''.webp'' \<and>
   toLowerCase (trim ''video/*'') = ''video/*'' \<and>
   toLowerCase (trim ''.mp4'') = ''.mp4'' \<and>
   toLowerCase (trim ''.webm'') = ''.webm'' \<and>
   toLowerCase (trim ''.mov'') = ''.mov'' \<and>
   toLowerCase (trim ''text/*'') = ''text/*'' \<and>
   toLowerCase (trim ''.txt'') = ''.txt'' \<and>
   toLowerCase (trim ''.csv'') = ''.csv'' \<and>
   toLowerCase (trim ''.fasta'') = ''.fasta'' \<and> toLowerCase (trim ''.pdb'') = ''.pdb''"
  by code_simp

lemma pattern_shapes:
  "startsWith ''.pdf'' ''.'' \<and> startsWith ''.png'' ''.'' \<and>
   startsWith ''.jpg'' ''.'' \<and> startsWith ''.jpeg'' ''.'' \<and>
   startsWith ''.gif'' ''.'' \<and> startsWith ''.webp'' ''.'' \<and>
   startsWith ''.mp4'' ''.'' \<and> startsWith ''.webm'' ''.'' \<and>
   startsWith ''.mov'' ''.'' \<and> startsWith ''.txt'' ''.'' \<and>
   startsWith ''.csv'' ''.'' \<and> startsWith ''.fasta'' ''.'' \<and>
   startsWith ''.pdb'' ''.'' \<and> \<not> startsWith ''application/pdf'' ''.'' \<and>
   \<not> startsWith ''image/*'' ''.'' \<and> \<not> startsWith ''video/*'' ''.'' \<and>
   \<not> startsWith ''text/*'' ''.'' \<and> endsWith ''image/*'' ''/*'' \<and>
   endsWith ''video/*'' ''/*'' \<and> endsWith ''text/*'' ''/*'' \<and>
   \<not> endsWith ''application/pdf'' ''/*'' \<and>
   baseMimeType ''image/*'' = ''image'' \<and> baseMimeType ''video/*'' = ''video'' \<and>
   baseMimeType ''text/*'' = ''text''"
  by (simp add: startsWith_def endsWith_def baseMimeType_def)

lemma matches_type_cases:
  "list_ex (matches_type file) (acceptPropAsAcceptAttr accept) =
     (toLowerCase (file_type file) = ''application/pdf''
      \<or> baseMimeType (toLowerCase (file_type file)) = ''image''
      \<or> baseMimeType (toLowerCase (file_type file)) = ''video''
      \<or> baseMimeType (toLowerCase (file_type file)) = ''text''
      \<or> list_ex (endsWith (toLowerCase (file_name file)))
           [''.pdf'', ''.png'', ''.jpg'', ''.jpeg'', ''.gif'', ''.webp'', ''.mp4'', ''.webm'',
            ''.mov'', ''.txt'', ''.csv'', ''.fasta'', ''.pdb''])"
proof -
  have "list_ex (matches_type file) (acceptPropAsAcceptAttr accept) =
     (toLowerCase (file_type file) = ''application/pdf''
      \<or> endsWith (toLowerCase (file_name file)) ''.pdf''
      \<or> baseMimeType (toLowerCase (file_type file)) = ''image''
      \<or> endsWith (toLowerCase (file_name file)) ''.png''
      \<or> endsWith (toLowerCase (file_name file)) ''.jpg''
      \<or> endsWith (toLowerCase (file_name file)) ''.jpeg''
      \<or> endsWith (toLowerCase (file_name file)) ''.gif''
      \<or> endsWith (toLowerCase (file_name file)) ''.webp''
      \<or> baseMimeType (toLowerCase (file_type file)) = ''video''
      \<or> endsWith (toLowerCase (file_name file)) ''.mp4''
      \<or> endsWith (toLowerCase (file_name file)) ''.webm''
      \<or> endsWith (toLowerCase (file_name file)) ''.mov''
      \<or> baseMimeType (toLowerCase (file_type file)) = ''text''
      \<or> endsWith (toLowerCase (file_name file)) ''.txt''
      \<or> endsWith (toLowerCase (file_name file)) ''.csv''
      \<or> endsWith (toLowerCase (file_name file)) ''.fasta''
      \<or> endsWith (toLowerCase (file_name file)) ''.pdb'')"
    unfolding acceptAttr
    by (simp only: list_ex_Nil_iff list_ex_Cons_iff matches_type_def Let_def valid_types pattern_shapes
        if_True if_False simp_thms)
  also have "\<dots> =
     (toLowerCase (file_type file) = ''application/pdf''
      \<or> baseMimeType (toLowerCase (file_type file)) = ''image''
      \<or> baseMimeType (toLowerCase (file_type file)) = ''video''
      \<or> baseMimeType (toLowerCase (file_type file)) = ''text''
      \<or> list_ex (endsWith (toLowerCase (file_name file)))
           [''.pdf'', ''.png'', ''.jpg'', ''.jpeg'', ''.gif'', ''.webp'', ''.mp4'', ''.webm'',
            ''.mov'', ''.txt'', ''.csv'', ''.fasta'', ''.pdb''])"
    unfolding list_ex_Nil_iff list_ex_Cons_iff by blast
  finally show ?thesis .
qed

lemma sample_lower:
  "toLowerCase ''application/pdf'' = ''application/pdf''
   \<and> toLowerCase ''paper.pdf'' = ''paper.pdf''
   \<and> toLowerCase ''application/octet-stream'' = ''application/octet-stream''
   \<and> toLowerCase ''tool.exe'' = ''tool.exe''
   \<and> toLowerCase ''text/csv'' = ''text/csv''
   \<and> toLowerCase ''data.csv'' = ''data.csv''
   \<and> toLowerCase ''AVI'' = ''avi''
   \<and> toLowerCase ''movie.AVI'' = ''movie.avi''
   \<and> toLowerCase ''video/x-msvideo'' = ''video/x-msvideo''"
  by code_simp

lemma file_passes_iff:
  "file_passes file \<longleftrightarrow>
     file_size file \<le> 52428800
     \<and> (file_type file = ''application/x-moz-file''
        \<or> toLowerCase (file_type file) = ''application/pdf''
        \<or> baseMimeType (toLowerCase (file_type file)) = ''image''
        \<or> baseMimeType (toLowerCase (file_type file)) = ''video''
        \<or> baseMimeType (toLowerCase (file_type file)) = ''text''
        \<or> list_ex (endsWith (toLowerCase (file_name file)))
             [''.pdf'', ''.png'', ''.jpg'', ''.jpeg'', ''.gif'', ''.webp'', ''.mp4'', ''.webm'',
              ''.mov'', ''.txt'', ''.csv'', ''.fasta'', ''.pdb''])"
proof -
  have ne: "acceptPropAsAcceptAttr accept \<noteq> []" by (simp add: acceptAttr)
  show ?thesis
    unfolding file_passes_def fileAccepted_def accepts_def fileMatchSize_def maxSize_bytes
      matches_type_cases
    using ne by blast
qed

lemma withMimeType_name: "file_name (withMimeType tbl file) = file_name file"
  by (simp add: withMimeType_def split: option.splits)

lemma withMimeType_size: "file_size (withMimeType tbl file) = file_size file"
  by (simp add: withMimeType_def split: option.splits)

lemma withMimeType_typed: "file_type file \<noteq> [] \<Longrightarrow> withMimeType tbl file = file"
  by (simp add: withMimeType_def)

lemma accepted_iff:
  "accepted tbl ev file \<longleftrightarrow>
     (ev = Dropped \<longrightarrow> file_name file \<notin> set FILES_TO_IGNORE)
     \<and> file_passes (withMimeType tbl file)"
  by (cases ev) (simp_all add: accepted_def onDrop_def fromEvent_def withMimeType_name)

lemma onDrop_accepted:
  "onDrop tbl ev offered = map (withMimeType tbl) (filter (accepted tbl ev) offered)"
  by (cases ev; induction offered)
     (simp_all add: onDrop_def fromEvent_def accepted_iff withMimeType_name)

text \<open>
  C5, as stated, fails. The table accepts \<^verbatim>\<open>text/*\<close>, not only \<^verbatim>\<open>text/plain\<close>, and
  the extension \<^verbatim>\<open>.csv\<close>: a CSV file of 1024 bytes is accepted although its class is
  outside the allow-list of the specification.
\<close>

theorem upload_filter_counterexample:
  "accepted demo_mime_types Dropped csv_file
   \<and> withMimeType demo_mime_types csv_file = csv_file
   \<and> file_size csv_file \<le> 52428800
   \<and> \<not> spec_allow_list csv_file"
proof -
  have t: "withMimeType demo_mime_types csv_file = csv_file"
    by (rule withMimeType_typed) (simp add: csv_file_def)
  show ?thesis
    unfolding accepted_iff t file_passes_iff spec_allow_list_def
    by (simp add: csv_file_def sample_lower baseMimeType_def endsWith_def FILES_TO_IGNORE_def)
qed

text \<open>
  C5, amended. A file is accepted only if its size is at most 52428800 bytes and it is
  within the allow-list of the table: its MIME type (the one the browser reports or,
  when the browser reports none, the one derived from the extension of its name) is
  \<^verbatim>\<open>application/pdf\<close> or of the classes \<^verbatim>\<open>image/*\<close>, \<^verbatim>\<open>video/*\<close> or
  \<^verbatim>\<open>text/*\<close>, or its name ends with one of the extensions of the table, or the
  browser reports it as \<^verbatim>\<open>application/x-moz-file\<close>. Any file above the ceiling or
  outside this allow-list is rejected: what \<open>onDrop\<close> receives are accepted files only.
\<close>

theorem upload_filter:
  "(accepted COMMON_MIME_TYPES ev file \<longrightarrow>
      file_size file \<le> 52428800
      \<and> (file_type (withMimeType COMMON_MIME_TYPES file) = ''application/x-moz-file''
         \<or> toLowerCase (file_type (withMimeType COMMON_MIME_TYPES file)) = ''application/pdf''
         \<or> baseMimeType (toLowerCase (file_type (withMimeType COMMON_MIME_TYPES file))) = ''image''
         \<or> baseMimeType (toLowerCase (file_type (withMimeType COMMON_MIME_TYPES file))) = ''video''
         \<or> baseMimeType (toLowerCase (file_type (withMimeType COMMON_MIME_TYPES file))) = ''text''
         \<or> list_ex (endsWith (toLowerCase (file_name file)))
              [''.pdf'', ''.png'', ''.jpg'', ''.jpeg'', ''.gif'', ''.webp'', ''.mp4'', ''.webm'',
               ''.mov'', ''.txt'', ''.csv'', ''.fasta'', ''.pdb'']))
   \<and> onDrop COMMON_MIME_TYPES ev offered
       = map (withMimeType COMMON_MIME_TYPES) (filter (accepted COMMON_MIME_TYPES ev) offered)"
proof (rule conjI, rule impI)
  assume "accepted COMMON_MIME_TYPES ev file"
  then have "file_passes (withMimeType COMMON_MIME_TYPES file)"
    by (simp add: accepted_iff)
  then show "file_size file \<le> 52428800
      \<and> (file_type (withMimeType COMMON_MIME_TYPES file) = ''application/x-moz-file''
         \<or> toLowerCase (file_type (withMimeType COMMON_MIME_TYPES file)) = ''application/pdf''
         \<or> baseMimeType (toLowerCase (file_type (withMimeType COMMON_MIME_TYPES file))) = ''image''
         \<or> baseMimeType (toLowerCase (file_type (withMimeType COMMON_MIME_TYPES file))) = ''video''
         \<or> baseMimeType (toLowerCase (file_type (withMimeType COMMON_MIME_TYPES file))) = ''text''
         \<or> list_ex (endsWith (toLowerCase (file_name file)))
              [''.pdf'', ''.png'', ''.jpg'', ''.jpeg'', ''.gif'', ''.webp'', ''.mp4'', ''.webm'',
               ''.mov'', ''.txt'', ''.csv'', ''.fasta'', ''.pdb''])"
    by (simp add: file_passes_iff withMimeType_name withMimeType_size)
next
  show "onDrop COMMON_MIME_TYPES ev offered
       = map (withMimeType COMMON_MIME_TYPES) (filter (accepted COMMON_MIME_TYPES ev) offered)"
    by (rule onDrop_accepted)
qed

lemma sample_files:
  "withMimeType demo_mime_types (pdf_file n) = pdf_file n"
  "withMimeType demo_mime_types exe_file = exe_file"
  "withMimeType demo_mime_types thumbs_file = thumbs_file"
  "withMimeType demo_mime_types avi_file = avi_file\<lparr>file_type := ''video/x-msvideo''\<rparr>"
  by (simp_all add: withMimeType_def pdf_file_def exe_file_def thumbs_file_def avi_file_def
      extension_def sample_lower demo_mime_types_def)

lemma sample_accepted:
  "accepted demo_mime_types Dropped (pdf_file 52428800)
   \<and> \<not> accepted demo_mime_types Dropped (pdf_file 52428801)
   \<and> \<not> accepted demo_mime_types Dropped exe_file
   \<and> accepted demo_mime_types Dropped avi_file
   \<and> \<not> accepted demo_mime_types Dropped thumbs_file"
  unfolding accepted_iff sample_files file_passes_iff
  by (simp add: pdf_file_def exe_file_def thumbs_file_def avi_file_def sample_lower
      baseMimeType_def endsWith_def FILES_TO_IGNORE_def)

theorem upload_filter_witness:
  "accepted demo_mime_types Dropped (pdf_file 52428800)
   \<and> file_size (pdf_file 52428800) \<le> 52428800
   \<and> toLowerCase (file_type (withMimeType demo_mime_types (pdf_file 52428800))) = ''application/pdf''
   \<and> onDrop demo_mime_types Dropped
        [pdf_file 52428800, pdf_file 52428801, exe_file, avi_file, thumbs_file]
       = [pdf_file 52428800, avi_file\<lparr>file_type := ''video/x-msvideo''\<rparr>]"
proof -
  note inst = upload_filter [of demo_mime_types Dropped "pdf_file 52428800"
      "[pdf_file 52428800, pdf_file 52428801, exe_file, avi_file, thumbs_file]"]
  from inst sample_accepted have 1: "file_size (pdf_file 52428800) \<le> 52428800" by blast
  have 2: "toLowerCase (file_type (withMimeType demo_mime_types (pdf_file 52428800)))
      = ''application/pdf''"
    by (simp add: sample_files) (simp add: pdf_file_def sample_lower)
  from inst have "onDrop demo_mime_types Dropped
        [pdf_file 52428800, pdf_file 52428801, exe_file, avi_file, thumbs_file]
      = map (withMimeType demo_mime_types) (filter (accepted demo_mime_types Dropped)
        [pdf_file 52428800, pdf_file 52428801, exe_file, avi_file, thumbs_file])" by blast
  then have 3: "onDrop demo_mime_types Dropped
        [pdf_file 52428800, pdf_file 52428801, exe_file, avi_file, thumbs_file]
       = [pdf_file 52428800, avi_file\<lparr>file_type := ''video/x-msvideo''\<rparr>]"
    by (simp add: sample_accepted sample_files)
  from sample_accepted 1 2 3 show ?thesis by blast
qed

subsection \<open>Clearing the memory of a session\<close>

lemma Clear_idem: "Clear sid (Clear sid store) = Clear sid store"
  by (simp add: Clear_def)

lemma Clear_count: "count_session sid (Clear sid store) = 0"
  by (simp add: Clear_def count_session_def)

text \<open>
  C8. Clearing the memory of a session twice leaves the store as clearing it once does:
  the second call finds no record of the session and changes nothing, and neither call
  reports an error. The same holds seen from the client: \<open>clearMemory\<close> answers without
  error both times, and the memory panel ends with an empty list and no error message.
\<close>

theorem clear_memory_idempotent:
  "Clear sid (Clear sid store) = Clear sid store
   \<and> count_session sid (Clear sid store) = 0
   \<and> clearMemory delete_memory sid (snd (clearMemory delete_memory sid store))
       = clearMemory delete_memory sid store
   \<and> fst (clearMemory delete_memory sid store) = None
   \<and> clearMemories delete_memory s (clearMemories delete_memory s (p, store))
       = clearMemories delete_memory s (p, store)
   \<and> panel_error (fst (clearMemories delete_memory s (p, store))) = panel_error p"
  by (simp add: Clear_idem Clear_count clearMemory_def delete_memory_def clearMemories_def
      split: option.splits)

theorem clear_memory_idempotent_witness:
  "clearMemories delete_memory (Some ''s'') (demo_panel, demo_store)
     = (demo_panel\<lparr>memories := []\<rparr>, [mk_record 2 ''t'' 20])
   \<and> clearMemories delete_memory (Some ''s'')
        (clearMemories delete_memory (Some ''s'') (demo_panel, demo_store))
     = (demo_panel\<lparr>memories := []\<rparr>, [mk_record 2 ''t'' 20])
   \<and> clearMemory delete_memory ''s'' (snd (clearMemory delete_memory ''s'' demo_store))
     = (None, [mk_record 2 ''t'' 20])"
proof -
  have c: "Clear ''s'' demo_store = [mk_record 2 ''t'' 20]"
    by (simp add: Clear_def demo_store_def in_session_def mk_record_def)
  have 1: "clearMemories delete_memory (Some ''s'') (demo_panel, demo_store)
     = (demo_panel\<lparr>memories := []\<rparr>, [mk_record 2 ''t'' 20])"
    by (simp add: clearMemories_def delete_memory_def c)
  have 2: "clearMemory delete_memory ''s'' demo_store = (None, [mk_record 2 ''t'' 20])"
    by (simp add: clearMemory_def delete_memory_def c)
  from clear_memory_idempotent [of "''s''" demo_store "Some ''s''" demo_panel] 1 2
  show ?thesis by simp
qed

end
